theory Spec2Isabelle
  imports Main
begin

section \<open>Python strings\<close>

text \<open>
  A Python \<open>str\<close> is a sequence of Unicode code points; \<open>len\<close> counts code points and
  \<open>ord\<close> reads one. A string is therefore a list of natural numbers, and the string
  literals of the source are written through \<open>lit\<close>.
\<close>

type_synonym pystr = "nat list"

definition lit :: "string \<Rightarrow> pystr" where
  "lit s = map of_char s"

text \<open>\<open>s.startswith(pre)\<close>\<close>

fun startswith :: "pystr \<Rightarrow> pystr \<Rightarrow> bool" where
  "startswith s [] = True"
| "startswith [] (c # cs) = False"
| "startswith (x # xs) (c # cs) = (x = c \<and> startswith xs cs)"

text \<open>\<open>sub in s\<close> on strings: \<open>sub\<close> occurs in \<open>s\<close> as a contiguous run.\<close>

fun contains :: "pystr \<Rightarrow> pystr \<Rightarrow> bool" where
  "contains sub [] = (sub = [])"
| "contains sub (x # xs) = (startswith (x # xs) sub \<or> contains sub xs)"

text \<open>
  \<open>s.rfind(c)\<close> for a single character: the highest index holding \<open>c\<close>, or \<open>-1\<close>.
\<close>

fun rfind :: "pystr \<Rightarrow> nat \<Rightarrow> int" where
  "rfind [] c = - 1"
| "rfind (x # xs) c =
     (let r = rfind xs c in if 0 \<le> r then r + 1 else if x = c then 0 else - 1)"

text \<open>
  \<open>s.lower()\<close>. On the ASCII range the mapping is fixed: \<open>A\<close>..\<open>Z\<close> go to \<open>a\<close>..\<open>z\<close>
  and every other ASCII character stays. Beyond ASCII the result comes from the Unicode
  tables of the Python runtime, which are no part of this program: they are the parameter
  \<open>U\<close>, which receives the whole string and the position (the lower case of a code point
  may be several code points, and may depend on its neighbours).
\<close>

type_synonym ucase = "pystr \<Rightarrow> nat \<Rightarrow> pystr"

definition lower_cp :: "ucase \<Rightarrow> pystr \<Rightarrow> nat \<Rightarrow> nat \<Rightarrow> pystr" where
  "lower_cp U s i c =
     (if 65 \<le> c \<and> c \<le> 90 then [c + 32] else if c < 128 then [c] else U s i)"

fun lower_from :: "ucase \<Rightarrow> pystr \<Rightarrow> nat \<Rightarrow> pystr \<Rightarrow> pystr" where
  "lower_from U s i [] = []"
| "lower_from U s i (c # cs) = lower_cp U s i c @ lower_from U s (Suc i) cs"

definition lower :: "ucase \<Rightarrow> pystr \<Rightarrow> pystr" where
  "lower U s = lower_from U s 0 s"

text \<open>A table that leaves every code point beyond ASCII as it is, for evaluation.\<close>

definition U_id :: ucase where
  "U_id s i = [s ! i]"

text \<open>
  \<open>s.strip()\<close> removes leading and trailing whitespace, where whitespace is what
  \<open>str.isspace\<close> accepts.
\<close>

definition isspace :: "nat \<Rightarrow> bool" where
  "isspace c \<longleftrightarrow>
     (9 \<le> c \<and> c \<le> 13) \<or> (28 \<le> c \<and> c \<le> 32) \<or> c = 133 \<or> c = 160 \<or> c = 5760 \<or>
     (8192 \<le> c \<and> c \<le> 8202) \<or> c = 8232 \<or> c = 8233 \<or> c = 8239 \<or> c = 8287 \<or> c = 12288"

definition strip :: "pystr \<Rightarrow> pystr" where
  "strip s = rev (dropWhile isspace (rev (dropWhile isspace s)))"

text \<open>\<open>str(n)\<close> for a non-negative integer: its decimal digits.\<close>

fun str_nat :: "nat \<Rightarrow> pystr" where
  "str_nat n = (if n < 10 then [48 + n] else str_nat (n div 10) @ [48 + n mod 10])"

declare str_nat.simps [simp del]

text \<open>\<open>sep.join(xs)\<close>\<close>

fun join :: "pystr \<Rightarrow> pystr list \<Rightarrow> pystr" where
  "join sep [] = []"
| "join sep [x] = x"
| "join sep (x # y # ys) = x @ sep @ join sep (y # ys)"

section \<open>Paths\<close>

text \<open>
  A \<open>pathlib.Path\<close> of the POSIX flavour: the anchor (empty for a relative path, \<open>/\<close> for
  an absolute one) and the path segments after it.
\<close>

datatype path = Path (anchor: pystr) (segments: "pystr list")

datatype error = ValueError | OSError

text \<open>\<open>p.parts\<close>: the anchor, when there is one, counts as the first part.\<close>

definition parts :: "path \<Rightarrow> pystr list" where
  "parts p = (if anchor p = [] then segments p else anchor p # segments p)"

text \<open>\<open>p.name\<close>: the final segment, empty when there is none.\<close>

definition name :: "path \<Rightarrow> pystr" where
  "name p = (if segments p = [] then [] else last (segments p))"

text \<open>
  \<open>p.suffix\<close> and \<open>p.stem\<close> split the name at its last dot, unless that dot is the
  first or the last character of the name (pathlib as it stands up to Python 3.13).
\<close>

definition suffix :: "path \<Rightarrow> pystr" where
  "suffix p =
     (let nm = name p; i = rfind nm 46
      in if 0 < i \<and> i < int (length nm) - 1 then drop (nat i) nm else [])"

definition stem :: "path \<Rightarrow> pystr" where
  "stem p =
     (let nm = name p; i = rfind nm 46
      in if 0 < i \<and> i < int (length nm) - 1 then take (nat i) nm else nm)"

text \<open>\<open>str(p)\<close>\<close>

definition str_path :: "path \<Rightarrow> pystr" where
  "str_path p =
     (let s = anchor p @ join [47] (segments p) in if s = [] then [46] else s)"

text \<open>
  \<open>p.relative_to(other)\<close>: the segments of \<open>p\<close> below \<open>other\<close>; \<open>ValueError\<close> when \<open>p\<close>
  does not lie under \<open>other\<close>.
\<close>

definition relative_to :: "path \<Rightarrow> path \<Rightarrow> error + path" where
  "relative_to p other =
     (let n = length (segments other)
      in if anchor p = anchor other \<and> take n (segments p) = segments other
         then Inr (Path [] (drop n (segments p)))
         else Inl ValueError)"

section \<open>Configuration constants\<close>

definition AUDIO_EXTS :: "pystr set" where
  "AUDIO_EXTS = {lit ''.flac'', lit ''.mp3'', lit ''.wav'', lit ''.aac'', lit ''.m4a'',
     lit ''.ogg'', lit ''.opus'', lit ''.wma'', lit ''.ape'', lit ''.aiff''}"

definition IMAGE_EXTS :: "pystr set" where
  "IMAGE_EXTS = {lit ''.jpg'', lit ''.jpeg'', lit ''.png'', lit ''.bmp'', lit ''.webp''}"

definition JUNK_EXTS :: "pystr set" where
  "JUNK_EXTS = {lit ''.m3u'', lit ''.m3u8'', lit ''.pls'', lit ''.wpl'', lit ''.xspf'',
     lit ''.db'', lit ''.ini'', lit ''.log'', lit ''.tmp'', lit ''.bak'',
     lit ''.sfk'', lit ''.asd'', lit ''.pkf'', lit ''.xml'', lit ''.json''}"

definition POTENTIALLY_PROBLEMATIC_EXTS :: "pystr set" where
  "POTENTIALLY_PROBLEMATIC_EXTS =
     {lit ''.cue'', lit ''.nfo'', lit ''.txt'', lit ''.rtf'', lit ''.pdf'', lit ''.md''}"

definition JUNK_FILENAMES :: "pystr set" where
  "JUNK_FILENAMES = {lit ''thumbs.db'', lit ''desktop.ini'', lit ''.ds_store''}"

definition JUNK_DIRNAMES :: "pystr set" where
  "JUNK_DIRNAMES = {lit ''.spotlight-v100'', lit ''.trashes'', lit ''__macosx''}"

definition APPLEDOUBLE_PREFIX :: pystr where
  "APPLEDOUBLE_PREFIX = lit ''._''"

definition DEPTH_LIMIT :: nat where
  "DEPTH_LIMIT = 6"

definition REL_PATH_LEN_LIMIT :: nat where
  "REL_PATH_LEN_LIMIT = 180"

definition MAX_FILENAME_LEN :: nat where
  "MAX_FILENAME_LEN = 120"

text \<open>
  \<open>BAD_CHARS_PATTERN\<close> is the character class \<open><>:"/\|?*\<close> together with the control
  characters 0 to 31; \<open>BAD_CHARS_PATTERN.search(s)\<close> finds a match exactly when some
  character of \<open>s\<close> is in the class.
\<close>

definition bad_char :: "nat \<Rightarrow> bool" where
  "bad_char c \<longleftrightarrow> c \<in> {60, 62, 58, 34, 47, 92, 124, 63, 42} \<or> c \<le> 31"

definition BAD_CHARS_PATTERN_search :: "pystr \<Rightarrow> bool" where
  "BAD_CHARS_PATTERN_search s = list_ex bad_char s"

definition PREFERRED_COVER_NAMES :: "pystr set" where
  "PREFERRED_COVER_NAMES = {lit ''cover'', lit ''folder'', lit ''front'', lit ''album''}"

section \<open>Types\<close>

record Finding =
  path :: path
  reason :: pystr

section \<open>Detectors\<close>

definition has_non_ascii :: "pystr \<Rightarrow> bool" where
  "has_non_ascii s = list_ex (\<lambda>ch. ch > 127) s"

text \<open>
  \<open>classify_file\<close> returns the bucket and the reason, both strings. The chain of \<open>if\<close>s
  is kept in the order of the source; the first test that holds returns.
\<close>

definition classify_file :: "ucase \<Rightarrow> path \<Rightarrow> pystr \<times> pystr" where
  "classify_file U p =
     (let name_lower = lower U (name p);
          ext_lower = lower U (suffix p)
      in if startswith (name p) APPLEDOUBLE_PREFIX
           then (lit ''junk'', lit ''macOS AppleDouble sidecar (._*)'')
         else if name_lower \<in> JUNK_FILENAMES
           then (lit ''junk'', lit ''junk metadata file ('' @ name p @ lit '')'')
         else if ext_lower \<in> AUDIO_EXTS
           then (lit ''allowed'', lit ''audio file'')
         else if ext_lower \<in> IMAGE_EXTS
           then (let stem = lower U (stem p)
                 in if stem \<notin> PREFERRED_COVER_NAMES \<and> \<not> contains (lit ''cover'') stem
                       \<and> \<not> contains (lit ''folder'') stem
                    then (lit ''maybe'',
                          lit ''image file (artwork) but name not cover/folder/front (album art pickup may suffer)'')
                    else (lit ''allowed'', lit ''cover art image''))
         else if ext_lower \<in> JUNK_EXTS
           then (lit ''junk'', lit ''junk sidecar/playlist/db/log ('' @ ext_lower @ lit '')'')
         else if ext_lower \<in> POTENTIALLY_PROBLEMATIC_EXTS
           then (lit ''maybe'',
                 lit ''non-audio sidecar ('' @ ext_lower @ lit '') '' @ [8212]
                   @ lit '' sometimes confuses DAP scans'')
         else (lit ''unknown'',
               lit ''unknown file type ('' @ (if ext_lower \<noteq> [] then ext_lower else lit ''no extension'')
                 @ lit '')''))"

subsection \<open>Health checks\<close>

text \<open>
  What the program asks of the file system, call by call: the entries below the scanned
  root in the order \<open>rglob\<close> yields them (each as its segments relative to the root), the
  answers of \<open>is_dir()\<close> and \<open>is_file()\<close>, and the size \<open>stat()\<close> reports, \<open>None\<close> when
  \<open>stat()\<close> raises. \<open>is_dir()\<close> and \<open>is_file()\<close> answer \<open>False\<close> for a missing path, and
  raise \<open>OSError\<close> when their own \<open>stat\<close> fails otherwise, as on a denied permission.
  The calls are separate system calls at separate times, so no relation between their
  answers is assumed.
\<close>

record filesystem =
  tree :: "pystr list list"
  is_dir :: "path \<Rightarrow> error + bool"
  is_file :: "path \<Rightarrow> error + bool"
  stat_size :: "path \<Rightarrow> nat option"

definition rglob :: "filesystem \<Rightarrow> path \<Rightarrow> path list" where
  "rglob fs root = map (\<lambda>t. Path (anchor root) (segments root @ t)) (tree fs)"

text \<open>The texts of the health findings.\<close>

definition depth_reason :: "nat \<Rightarrow> pystr" where
  "depth_reason depth =
     lit ''deep folder nesting (depth='' @ str_nat depth @ lit '', limit=''
       @ str_nat DEPTH_LIMIT @ lit '')''"

definition rel_len_reason :: "nat \<Rightarrow> pystr" where
  "rel_len_reason n =
     lit ''long relative path ('' @ str_nat n @ lit '' chars, limit=''
       @ str_nat REL_PATH_LEN_LIMIT @ lit '')''"

definition name_len_reason :: "nat \<Rightarrow> pystr" where
  "name_len_reason n =
     lit ''very long filename ('' @ str_nat n @ lit '' chars, limit=''
       @ str_nat MAX_FILENAME_LEN @ lit '')''"

definition non_ascii_reason :: pystr where
  "non_ascii_reason = lit ''contains non-ASCII characters (possible emojis/unicode)''"

definition bad_chars_reason :: pystr where
  "bad_chars_reason =
     lit ''filename contains characters that can break devices (<>:'' @ [34, 47, 92]
       @ lit ''|?* or control chars)''"

definition spaces_reason :: pystr where
  "spaces_reason = lit ''filename has leading/trailing spaces''"

definition double_spaces_reason :: pystr where
  "double_spaces_reason = lit ''filename contains double spaces''"

definition zero_byte_reason :: pystr where
  "zero_byte_reason = lit ''zero-byte file''"

definition stat_reason :: pystr where
  "stat_reason = lit ''could not stat file (permissions/corruption)''"

text \<open>
  \<open>file_health_checks\<close> appends to the list \<open>reasons\<close> test after test. Only
  \<open>relative_to\<close> can raise out of it; a failing \<open>stat\<close> is caught and becomes a finding.
\<close>

definition file_health_checks :: "filesystem \<Rightarrow> path \<Rightarrow> path \<Rightarrow> error + pystr list" where
  "file_health_checks fs p root =
     (case relative_to p root of
        Inl e \<Rightarrow> Inl e
      | Inr rel \<Rightarrow>
         (let reasons = [];
              rel_str = str_path rel;
              depth = length (parts rel);
              reasons = (if depth > DEPTH_LIMIT then reasons @ [depth_reason depth] else reasons);
              reasons = (if length rel_str > REL_PATH_LEN_LIMIT
                         then reasons @ [rel_len_reason (length rel_str)] else reasons);
              reasons = (if length (name p) > MAX_FILENAME_LEN
                         then reasons @ [name_len_reason (length (name p))] else reasons);
              reasons = (if has_non_ascii rel_str then reasons @ [non_ascii_reason] else reasons);
              reasons = (if BAD_CHARS_PATTERN_search (name p)
                         then reasons @ [bad_chars_reason] else reasons);
              reasons = (if name p \<noteq> strip (name p) then reasons @ [spaces_reason] else reasons);
              reasons = (if contains (lit ''  '') (name p)
                         then reasons @ [double_spaces_reason] else reasons);
              reasons = (case stat_size fs p of
                           Some st_size \<Rightarrow> if st_size = 0 then reasons @ [zero_byte_reason] else reasons
                         | None \<Rightarrow> reasons @ [stat_reason])
          in Inr reasons))"

section \<open>main\<close>

text \<open>
  The scan of \<open>main\<close>: \<open>buckets\<close> is a \<open>defaultdict(list)\<close>, a total function from the
  bucket name to its findings, empty where nothing was stored. Neither loop of the scan
  has a \<open>try\<close> around \<open>is_dir()\<close> or \<open>is_file()\<close>: an error of these calls leaves the
  scan.
\<close>

type_synonym buckets = "pystr \<Rightarrow> Finding list"

record scan_state =
  buckets :: buckets
  issues :: "Finding list"
  junk_dirs :: "path list"

text \<open>The first loop: the directories whose lowered name is a junk directory name.\<close>

fun find_junk_dirs :: "ucase \<Rightarrow> filesystem \<Rightarrow> path list \<Rightarrow> path list \<Rightarrow> error + path list" where
  "find_junk_dirs U fs [] found = Inr found"
| "find_junk_dirs U fs (d # ds) found =
     (case is_dir fs d of
        Inl e \<Rightarrow> Inl e
      | Inr directory \<Rightarrow>
          find_junk_dirs U fs ds
            (if directory \<and> lower U (name d) \<in> JUNK_DIRNAMES then found @ [d] else found))"

text \<open>The second loop: every regular file is classified and checked.\<close>

fun scan_files :: "ucase \<Rightarrow> filesystem \<Rightarrow> path \<Rightarrow> path list \<Rightarrow> scan_state \<Rightarrow> error + scan_state" where
  "scan_files U fs root [] st = Inr st"
| "scan_files U fs root (p # ps) st =
     (case is_file fs p of
        Inl e \<Rightarrow> Inl e
      | Inr regular \<Rightarrow>
          if \<not> regular then scan_files U fs root ps st
          else
            (let (bucket, reason) = classify_file U p;
                 st = st\<lparr>buckets := (buckets st)(bucket := buckets st bucket @ [\<lparr>path = p, reason = reason\<rparr>])\<rparr>
             in case file_health_checks fs p root of
                  Inl e \<Rightarrow> Inl e
                | Inr rs \<Rightarrow>
                    scan_files U fs root ps
                      (st\<lparr>issues := issues st @ map (\<lambda>r. \<lparr>path = p, reason = r\<rparr>) rs\<rparr>)))"

definition scan :: "ucase \<Rightarrow> filesystem \<Rightarrow> path \<Rightarrow> error + scan_state" where
  "scan U fs root =
     (case find_junk_dirs U fs (rglob fs root) [] of
        Inl e \<Rightarrow> Inl e
      | Inr ds \<Rightarrow>
          scan_files U fs root (rglob fs root)
            \<lparr>buckets = (\<lambda>_. []), issues = [], junk_dirs = ds\<rparr>)"

text \<open>
  The choice of what to delete. \<open>choice\<close> is the menu answer: \<open>1\<close> junk only, \<open>2\<close> junk
  and maybe, \<open>3\<close> junk, maybe and unknown, \<open>4\<close> report only. \<open>delete_list\<close> is the list
  \<open>main\<close> builds for the answers 1 to 3.
\<close>

definition delete_list :: "pystr \<Rightarrow> buckets \<Rightarrow> path list" where
  "delete_list choice bs =
     (let dl = [];
          dl = dl @ map path (bs (lit ''junk''));
          dl = (if choice \<in> {lit ''2'', lit ''3''} then dl @ map path (bs (lit ''maybe'')) else dl);
          dl = (if choice = lit ''3'' then dl @ map path (bs (lit ''unknown'')) else dl)
      in dl)"

datatype selection = Invalid_choice | Report_only | Nothing_selected | Selected "path list"

definition select_deletions :: "pystr \<Rightarrow> buckets \<Rightarrow> selection" where
  "select_deletions choice bs =
     (if choice \<notin> {lit ''1'', lit ''2'', lit ''3'', lit ''4''} then Invalid_choice
      else if choice = lit ''4'' then Report_only
      else (let dl = delete_list choice bs
            in if dl = [] then Nothing_selected else Selected dl))"

text \<open>The paths \<open>main\<close> goes on to ask confirmation for and to unlink: none when it returns before.\<close>

definition deletion_plan :: "pystr \<Rightarrow> buckets \<Rightarrow> path list" where
  "deletion_plan choice bs =
     (case select_deletions choice bs of Selected dl \<Rightarrow> dl | _ \<Rightarrow> [])"

section \<open>Specification vocabulary\<close>

text \<open>
  The health checks as the specification lists them: one row per check, in the documented
  order, each with its condition and the finding it contributes. The rows that read only
  the path and the name come first, the two rows that read the size last.
\<close>

definition name_path_checks :: "path \<Rightarrow> path \<Rightarrow> (bool \<times> pystr) list" where
  "name_path_checks p rel =
     [(length (parts rel) > DEPTH_LIMIT, depth_reason (length (parts rel))),
      (length (str_path rel) > REL_PATH_LEN_LIMIT, rel_len_reason (length (str_path rel))),
      (length (name p) > MAX_FILENAME_LEN, name_len_reason (length (name p))),
      (has_non_ascii (str_path rel), non_ascii_reason),
      (BAD_CHARS_PATTERN_search (name p), bad_chars_reason),
      (name p \<noteq> strip (name p), spaces_reason),
      (contains (lit ''  '') (name p), double_spaces_reason)]"

definition documented_checks :: "filesystem \<Rightarrow> path \<Rightarrow> path \<Rightarrow> (bool \<times> pystr) list" where
  "documented_checks fs p rel =
     name_path_checks p rel @
     [(stat_size fs p = Some 0, zero_byte_reason),
      (stat_size fs p = None, stat_reason)]"

text \<open>The findings of the rows whose condition holds, in the order of the rows.\<close>

definition findings_of :: "(bool \<times> pystr) list \<Rightarrow> pystr list" where
  "findings_of checks = map snd (filter fst checks)"

text \<open>A finding is a path-length issue when it opens with the text of that check.\<close>

definition is_rel_len_issue :: "pystr \<Rightarrow> bool" where
  "is_rel_len_issue r = startswith r (lit ''long relative path ('')"

text \<open>Every finding of a bucket sits in the bucket its file classifies to.\<close>

definition classified :: "ucase \<Rightarrow> buckets \<Rightarrow> bool" where
  "classified U bs \<longleftrightarrow> (\<forall>k f. f \<in> set (bs k) \<longrightarrow> fst (classify_file U (path f)) = k)"

subsection \<open>Concrete inputs\<close>

definition music_root :: path where
  "music_root = Path [47] [lit ''Music'']"

definition music_file :: "pystr list \<Rightarrow> path" where
  "music_file segs = Path [47] (lit ''Music'' # segs)"

text \<open>A file system with no entries where \<open>stat\<close> answers \<open>s\<close> for every path.\<close>

definition fs_stat :: "nat option \<Rightarrow> filesystem" where
  "fs_stat s = \<lparr>tree = [], is_dir = (\<lambda>_. Inr False), is_file = (\<lambda>_. Inr True),
     stat_size = (\<lambda>_. s)\<rparr>"

text \<open>A root holding two empty files, an audio file and a playlist.\<close>

definition fs_two :: filesystem where
  "fs_two = \<lparr>tree = [[lit ''a.flac''], [lit ''x.m3u'']],
     is_dir = (\<lambda>_. Inr False), is_file = (\<lambda>_. Inr True), stat_size = (\<lambda>_. Some 0)\<rparr>"

text \<open>A root holding one file on which every \<open>stat\<close> is denied.\<close>

definition fs_denied :: filesystem where
  "fs_denied = \<lparr>tree = [[lit ''Track 01.flac'']],
     is_dir = (\<lambda>_. Inl OSError), is_file = (\<lambda>_. Inl OSError), stat_size = (\<lambda>_. None)\<rparr>"

section \<open>The classifier\<close>

lemma bucket_cases:
  "fst (classify_file U p) \<in> {lit ''allowed'', lit ''junk'', lit ''maybe'', lit ''unknown''}"
  by (simp add: classify_file_def Let_def)

lemma bucket_names_ne:
  "lit ''junk'' \<noteq> lit ''allowed''" "lit ''maybe'' \<noteq> lit ''allowed''"
  "lit ''maybe'' \<noteq> lit ''junk''" "lit ''unknown'' \<noteq> lit ''allowed''"
  "lit ''unknown'' \<noteq> lit ''junk''" "lit ''unknown'' \<noteq> lit ''maybe''"
  "lit ''allowed'' \<noteq> lit ''junk''" "lit ''allowed'' \<noteq> lit ''maybe''"
  "lit ''junk'' \<noteq> lit ''maybe''" "lit ''allowed'' \<noteq> lit ''unknown''"
  "lit ''junk'' \<noteq> lit ''unknown''" "lit ''maybe'' \<noteq> lit ''unknown''"
  by (simp_all add: lit_def)

text \<open>
  C3: for every path the classifier returns one pair of bucket and reason, and its bucket
  is one of the four bucket names \<open>allowed\<close>, \<open>junk\<close>, \<open>maybe\<close>, \<open>unknown\<close>, which are
  pairwise different; the model has no error branch, as the source raises nowhere.
\<close>

theorem classify_file_one_category:
  "(\<exists>!b. b \<in> {lit ''allowed'', lit ''junk'', lit ''maybe'', lit ''unknown''}
        \<and> (\<exists>r. classify_file U p = (b, r)))
   \<and> distinct [lit ''allowed'', lit ''junk'', lit ''maybe'', lit ''unknown'']"
proof -
  obtain b r where br: "classify_file U p = (b, r)"
    by (cases "classify_file U p")
  have "b \<in> {lit ''allowed'', lit ''junk'', lit ''maybe'', lit ''unknown''}"
    using bucket_cases [of U p] br by simp
  with br have "\<exists>!b. b \<in> {lit ''allowed'', lit ''junk'', lit ''maybe'', lit ''unknown''}
        \<and> (\<exists>r. classify_file U p = (b, r))"
    by auto
  moreover have "distinct [lit ''allowed'', lit ''junk'', lit ''maybe'', lit ''unknown'']"
    by (simp add: bucket_names_ne)
  ultimately show ?thesis by (rule conjI)
qed

theorem classify_file_one_category_witness:
  "classify_file U_id (Path [] [lit ''Track 01.flac'']) = (lit ''allowed'', lit ''audio file'')
   \<and> (\<exists>!b. b \<in> {lit ''allowed'', lit ''junk'', lit ''maybe'', lit ''unknown''}
        \<and> (\<exists>r. classify_file U_id (Path [] [lit ''Track 01.flac'']) = (b, r)))"
proof -
  have "classify_file U_id (Path [] [lit ''Track 01.flac'']) = (lit ''allowed'', lit ''audio file'')"
    by (simp add: classify_file_def name_def suffix_def APPLEDOUBLE_PREFIX_def lit_def lower_def
        lower_cp_def JUNK_FILENAMES_def AUDIO_EXTS_def Let_def)
  with classify_file_one_category [of U_id "Path [] [lit ''Track 01.flac'']"]
  show ?thesis by (simp only: simp_thms)
qed

text \<open>
  C4, as amended: a file whose name begins with the AppleDouble prefix \<open>._\<close> is classified
  \<open>junk\<close> whatever its extension, and the reason the code gives is
  \<open>macOS AppleDouble sidecar (._*)\<close>.
\<close>

theorem appledouble_is_junk:
  assumes "startswith (name p) APPLEDOUBLE_PREFIX"
  shows "classify_file U p = (lit ''junk'', lit ''macOS AppleDouble sidecar (._*)'')"
  using assms by (simp add: classify_file_def)

theorem appledouble_is_junk_witness:
  "startswith (name (Path [] [lit ''._cover.jpg''])) APPLEDOUBLE_PREFIX
   \<and> lower U_id (suffix (Path [] [lit ''._cover.jpg''])) \<in> IMAGE_EXTS
   \<and> classify_file U_id (Path [] [lit ''._cover.jpg''])
       = (lit ''junk'', lit ''macOS AppleDouble sidecar (._*)'')"
proof -
  have h: "startswith (name (Path [] [lit ''._cover.jpg''])) APPLEDOUBLE_PREFIX"
    by (simp add: name_def APPLEDOUBLE_PREFIX_def lit_def)
  have i: "lower U_id (suffix (Path [] [lit ''._cover.jpg''])) \<in> IMAGE_EXTS"
    by (simp add: suffix_def name_def lit_def lower_def lower_cp_def IMAGE_EXTS_def)
  from h i appledouble_is_junk [OF h, of U_id] show ?thesis by simp
qed

text \<open>
  C4 as stated fails on the reason: for \<open>._cover.jpg\<close> the code does not return the pair
  of \<open>junk\<close> and \<open>macOS sidecar file\<close>.
\<close>

theorem appledouble_reason_counterexample:
  "classify_file U_id (Path [] [lit ''._cover.jpg'']) \<noteq> (lit ''junk'', lit ''macOS sidecar file'')"
  by (simp add: classify_file_def name_def APPLEDOUBLE_PREFIX_def lit_def)

lemma albumart_is_maybe:
  "classify_file U (Path [] [lit ''AlbumArt.png''])
     = (lit ''maybe'',
        lit ''image file (artwork) but name not cover/folder/front (album art pickup may suffer)'')"
  by (simp add: classify_file_def name_def suffix_def stem_def APPLEDOUBLE_PREFIX_def lit_def
      lower_def lower_cp_def JUNK_FILENAMES_def AUDIO_EXTS_def IMAGE_EXTS_def
      PREFERRED_COVER_NAMES_def Let_def)

text \<open>
  C5: when the image-extension rule is reached (the lowered extension is an image extension
  and neither the prefix rule, the junk-filename rule nor the audio rule matched), the bucket
  is \<open>maybe\<close> exactly when the lowered stem is no preferred cover name and contains neither
  \<open>cover\<close> nor \<open>folder\<close>; otherwise the result is \<open>allowed\<close>, cover art. \<open>AlbumArt.png\<close> is
  \<open>maybe\<close> with the artwork-naming reason.
\<close>

theorem image_rule:
  assumes "\<not> startswith (name p) APPLEDOUBLE_PREFIX"
    and "lower U (name p) \<notin> JUNK_FILENAMES"
    and "lower U (suffix p) \<notin> AUDIO_EXTS"
    and "lower U (suffix p) \<in> IMAGE_EXTS"
  shows "(fst (classify_file U p) = lit ''maybe'' \<longleftrightarrow>
            lower U (stem p) \<notin> PREFERRED_COVER_NAMES
            \<and> \<not> contains (lit ''cover'') (lower U (stem p))
            \<and> \<not> contains (lit ''folder'') (lower U (stem p)))
     \<and> (fst (classify_file U p) \<noteq> lit ''maybe'' \<longrightarrow>
            classify_file U p = (lit ''allowed'', lit ''cover art image''))
     \<and> classify_file U (Path [] [lit ''AlbumArt.png''])
         = (lit ''maybe'',
            lit ''image file (artwork) but name not cover/folder/front (album art pickup may suffer)'')"
proof -
  have g1: "fst (classify_file U p) = lit ''maybe'' \<longleftrightarrow>
            lower U (stem p) \<notin> PREFERRED_COVER_NAMES
            \<and> \<not> contains (lit ''cover'') (lower U (stem p))
            \<and> \<not> contains (lit ''folder'') (lower U (stem p))"
    using assms by (simp add: classify_file_def Let_def bucket_names_ne)
  have g2: "fst (classify_file U p) \<noteq> lit ''maybe'' \<longrightarrow>
            classify_file U p = (lit ''allowed'', lit ''cover art image'')"
    using assms by (simp add: classify_file_def Let_def)
  show ?thesis by (intro conjI) (rule g1, rule g2, rule albumart_is_maybe)
qed

theorem image_rule_witness:
  "\<not> startswith (name (Path [] [lit ''Folder.JPG''])) APPLEDOUBLE_PREFIX
   \<and> lower U_id (name (Path [] [lit ''Folder.JPG''])) \<notin> JUNK_FILENAMES
   \<and> lower U_id (suffix (Path [] [lit ''Folder.JPG''])) \<notin> AUDIO_EXTS
   \<and> lower U_id (suffix (Path [] [lit ''Folder.JPG''])) \<in> IMAGE_EXTS
   \<and> lower U_id (stem (Path [] [lit ''Folder.JPG''])) \<in> PREFERRED_COVER_NAMES
   \<and> classify_file U_id (Path [] [lit ''Folder.JPG'']) = (lit ''allowed'', lit ''cover art image'')"
proof -
  let ?p = "Path [] [lit ''Folder.JPG'']"
  have a: "\<not> startswith (name ?p) APPLEDOUBLE_PREFIX"
    by (simp add: name_def APPLEDOUBLE_PREFIX_def lit_def)
  have j: "lower U_id (name ?p) \<notin> JUNK_FILENAMES"
    by (simp add: name_def lit_def lower_def lower_cp_def JUNK_FILENAMES_def)
  have e: "lower U_id (suffix ?p) = lit ''.jpg''"
    by (simp add: suffix_def name_def lit_def lower_def lower_cp_def)
  have au: "lower U_id (suffix ?p) \<notin> AUDIO_EXTS"
    unfolding e by (simp add: AUDIO_EXTS_def lit_def)
  have im: "lower U_id (suffix ?p) \<in> IMAGE_EXTS"
    unfolding e by (simp add: IMAGE_EXTS_def)
  have st: "lower U_id (stem ?p) \<in> PREFERRED_COVER_NAMES"
    by (simp add: stem_def name_def lit_def lower_def lower_cp_def PREFERRED_COVER_NAMES_def)
  from image_rule [OF a j au im] st
  have "classify_file U_id ?p = (lit ''allowed'', lit ''cover art image'')"
    by blast
  with a j au im st show ?thesis by (intro conjI)
qed

lemma rfind_absent: "c \<notin> set s \<Longrightarrow> rfind s c = - 1"
  by (induction s) (simp_all add: Let_def)

lemma lower_Nil: "lower U [] = []"
  by (simp add: lower_def)

lemma Nil_not_ext:
  "[] \<notin> AUDIO_EXTS" "[] \<notin> IMAGE_EXTS" "[] \<notin> JUNK_EXTS" "[] \<notin> POTENTIALLY_PROBLEMATIC_EXTS"
  by (simp_all add: AUDIO_EXTS_def IMAGE_EXTS_def JUNK_EXTS_def POTENTIALLY_PROBLEMATIC_EXTS_def
      lit_def)

lemma dotfile_suffix:
  assumes "name p = 46 # rest" and "46 \<notin> set rest"
  shows "suffix p = []"
  using assms by (simp add: suffix_def Let_def rfind_absent)

text \<open>
  C10: a name that is one leading dot followed by characters without a further dot has the
  empty extension, so none of the four extension sets matches; unless the name begins with
  the AppleDouble prefix or lowers to a junk filename, the file is \<open>unknown\<close> with the reason
  \<open>unknown file type (no extension)\<close>.
\<close>

theorem dotfile_no_extension:
  assumes "name p = 46 # rest" and "46 \<notin> set rest"
  shows "suffix p = []
     \<and> lower U (suffix p) \<notin> AUDIO_EXTS \<union> IMAGE_EXTS \<union> JUNK_EXTS \<union> POTENTIALLY_PROBLEMATIC_EXTS
     \<and> (\<not> startswith (name p) APPLEDOUBLE_PREFIX \<and> lower U (name p) \<notin> JUNK_FILENAMES
          \<longrightarrow> classify_file U p = (lit ''unknown'', lit ''unknown file type (no extension)''))"
proof -
  have s: "suffix p = []" using assms by (rule dotfile_suffix)
  have e: "lower U (suffix p) = []" by (simp add: s lower_Nil)
  have u: "lit ''unknown file type ('' @ lit ''no extension'' @ lit '')''
      = lit ''unknown file type (no extension)''"
    by (simp add: lit_def)
  show ?thesis
    by (simp add: s e Nil_not_ext classify_file_def Let_def lower_Nil u del: append_assoc)
qed

theorem dotfile_no_extension_witness:
  "suffix (Path [] [lit ''.flac'']) = []
   \<and> classify_file U_id (Path [] [lit ''.flac''])
       = (lit ''unknown'', lit ''unknown file type (no extension)'')"
proof -
  have n: "name (Path [] [lit ''.flac'']) = 46 # lit ''flac''"
    by (simp add: name_def lit_def)
  have d: "46 \<notin> set (lit ''flac'')"
    by (simp add: lit_def)
  have a: "\<not> startswith (name (Path [] [lit ''.flac''])) APPLEDOUBLE_PREFIX"
    by (simp add: name_def lit_def APPLEDOUBLE_PREFIX_def)
  have j: "lower U_id (name (Path [] [lit ''.flac''])) \<notin> JUNK_FILENAMES"
    by (simp add: name_def lit_def lower_def lower_cp_def JUNK_FILENAMES_def)
  from dotfile_no_extension [OF n d, of U_id] a j show ?thesis by blast
qed

section \<open>The health checker\<close>

lemma relative_music: "relative_to (music_file segs) music_root = Inr (Path [] segs)"
  by (simp add: relative_to_def music_file_def music_root_def)

lemma if_snoc: "(if c then xs @ [r] else xs) = xs @ (if c then [r] else [])"
  by simp

lemma fhc_split:
  assumes "relative_to p root = Inr rel"
  shows "file_health_checks fs p root =
     Inr (findings_of (name_path_checks p rel) @
          (case stat_size fs p of None \<Rightarrow> [stat_reason]
           | Some n \<Rightarrow> if n = 0 then [zero_byte_reason] else []))"
  using assms
  by (simp add: file_health_checks_def name_path_checks_def findings_of_def if_snoc Let_def
      split: option.split)

lemma fhc_Inr:
  assumes "file_health_checks fs p root = Inr rs"
  obtains rel where "relative_to p root = Inr rel"
  using assms by (cases "relative_to p root") (simp_all add: file_health_checks_def)

lemma findings_of_append: "findings_of (xs @ ys) = findings_of xs @ findings_of ys"
  by (simp add: findings_of_def)

lemma stat_findings:
  "findings_of [(stat_size fs p = Some 0, zero_byte_reason), (stat_size fs p = None, stat_reason)]
   = (case stat_size fs p of None \<Rightarrow> [stat_reason]
      | Some n \<Rightarrow> if n = 0 then [zero_byte_reason] else [])"
  by (simp add: findings_of_def split: option.split)

lemma fhc_documented:
  assumes "relative_to p root = Inr rel"
  shows "file_health_checks fs p root = Inr (findings_of (documented_checks fs p rel))"
  by (simp add: fhc_split [OF assms] documented_checks_def findings_of_append stat_findings)

lemma reasons_distinct:
  "distinct [depth_reason d, rel_len_reason n, name_len_reason m, non_ascii_reason,
     bad_chars_reason, spaces_reason, double_spaces_reason, zero_byte_reason, stat_reason]"
  by (simp add: depth_reason_def rel_len_reason_def name_len_reason_def non_ascii_reason_def
      bad_chars_reason_def spaces_reason_def double_spaces_reason_def zero_byte_reason_def
      stat_reason_def lit_def)

lemma documented_reasons:
  "map snd (documented_checks fs p rel) =
     [depth_reason (length (parts rel)), rel_len_reason (length (str_path rel)),
      name_len_reason (length (name p)), non_ascii_reason,
      bad_chars_reason, spaces_reason, double_spaces_reason, zero_byte_reason, stat_reason]"
  by (simp add: documented_checks_def name_path_checks_def)

lemma findings_subset: "set (findings_of cs) \<subseteq> set (map snd cs)"
  by (auto simp: findings_of_def)

lemma findings_distinct: "distinct (map snd cs) \<Longrightarrow> distinct (findings_of cs)"
  by (simp add: findings_of_def distinct_map_filter)

lemma length_findings: "length (findings_of cs) \<le> length cs"
  by (simp add: findings_of_def)

lemma length_name_path_checks: "length (name_path_checks p rel) = 7"
  by (simp add: name_path_checks_def)

lemma mem_findings: "r \<in> set (findings_of cs) \<longleftrightarrow> (True, r) \<in> set cs"
  by (induction cs) (auto simp: findings_of_def)

lemma last_reasons_notin:
  "zero_byte_reason \<notin> set (findings_of (name_path_checks p rel))"
  "stat_reason \<notin> set (findings_of (name_path_checks p rel))"
  using reasons_distinct [of "length (parts rel)" "length (str_path rel)" "length (name p)"]
  by (auto simp: mem_findings name_path_checks_def)

lemma zero_stat_ne: "zero_byte_reason \<noteq> stat_reason"
  using reasons_distinct [of 0 0 0] by simp

lemma eval_spaces_example:
  "findings_of (documented_checks (fs_stat None) (music_file [lit ''a  b '']) (Path [] [lit ''a  b '']))
     = [spaces_reason, double_spaces_reason, stat_reason]"
  by (simp add: documented_checks_def name_path_checks_def findings_of_def fs_stat_def music_file_def
      parts_def str_path_def name_def has_non_ascii_def BAD_CHARS_PATTERN_search_def bad_char_def
      strip_def isspace_def lit_def DEPTH_LIMIT_def REL_PATH_LEN_LIMIT_def MAX_FILENAME_LEN_def)

text \<open>
  C6: whenever the file lies under the root, the list the health checker returns is the list
  of the findings of the documented checks whose condition holds, in the documented order:
  depth, relative-path length, filename length, non-ASCII, hostile characters,
  leading or trailing whitespace, double spaces, and last the zero-byte or stat finding. Each
  condition reads the file alone, so no check suppresses a later one, and a file can collect
  several findings.
\<close>

theorem health_checks_all_run_in_order:
  assumes "relative_to p root = Inr rel"
  shows "file_health_checks fs p root = Inr (findings_of (documented_checks fs p rel))"
proof -
  have "findings_of (documented_checks fs p rel) =
     findings_of (name_path_checks p rel) @
       (case stat_size fs p of None \<Rightarrow> [stat_reason]
        | Some n \<Rightarrow> if n = 0 then [zero_byte_reason] else [])"
    by (simp add: documented_checks_def findings_of_append stat_findings)
  with fhc_split [OF assms, of fs] show ?thesis by simp
qed

theorem health_checks_all_run_in_order_witness:
  "file_health_checks (fs_stat None) (music_file [lit ''a  b '']) music_root
     = Inr [spaces_reason, double_spaces_reason, stat_reason]"
  using health_checks_all_run_in_order [OF relative_music, of "fs_stat None" "[lit ''a  b '']"]
  by (simp add: eval_spaces_example)

lemma not_rel_len_issue:
  "\<not> is_rel_len_issue (depth_reason d)" "\<not> is_rel_len_issue (name_len_reason m)"
  "\<not> is_rel_len_issue non_ascii_reason" "\<not> is_rel_len_issue bad_chars_reason"
  "\<not> is_rel_len_issue spaces_reason" "\<not> is_rel_len_issue double_spaces_reason"
  "\<not> is_rel_len_issue zero_byte_reason" "\<not> is_rel_len_issue stat_reason"
  by (simp_all add: is_rel_len_issue_def depth_reason_def name_len_reason_def non_ascii_reason_def
      bad_chars_reason_def spaces_reason_def double_spaces_reason_def zero_byte_reason_def
      stat_reason_def lit_def)

lemma rel_len_issue: "is_rel_len_issue (rel_len_reason n)"
  by (simp add: is_rel_len_issue_def rel_len_reason_def lit_def)

lemma filter_rel_len:
  assumes "relative_to p root = Inr rel"
  shows "\<exists>rs. file_health_checks fs p root = Inr rs \<and>
     filter is_rel_len_issue rs =
       (if length (str_path rel) > REL_PATH_LEN_LIMIT
        then [rel_len_reason (length (str_path rel))] else [])"
  by (simp add: fhc_split [OF assms] findings_of_def name_path_checks_def not_rel_len_issue
      rel_len_issue split: option.split)

lemma str_path_single: "s \<noteq> [] \<Longrightarrow> str_path (Path [] [s]) = s"
  by (simp add: str_path_def)

text \<open>
  C7: the limit is 180. A relative path whose string is exactly 180 characters long gives no
  path-length finding; one of 181 characters gives exactly one, the text for 181 characters.
\<close>

theorem rel_path_length_boundary:
  assumes "relative_to p root = Inr rel"
  shows "REL_PATH_LEN_LIMIT = 180
     \<and> (\<exists>rs. file_health_checks fs p root = Inr rs
          \<and> (length (str_path rel) = 180 \<longrightarrow> filter is_rel_len_issue rs = [])
          \<and> (length (str_path rel) = 181 \<longrightarrow> filter is_rel_len_issue rs = [rel_len_reason 181]))"
proof -
  from filter_rel_len [OF assms, of fs] obtain rs where
    rs: "file_health_checks fs p root = Inr rs"
    and f: "filter is_rel_len_issue rs =
       (if length (str_path rel) > REL_PATH_LEN_LIMIT
        then [rel_len_reason (length (str_path rel))] else [])"
    by blast
  from f have "length (str_path rel) = 180 \<longrightarrow> filter is_rel_len_issue rs = []"
    by (simp add: REL_PATH_LEN_LIMIT_def)
  moreover from f
  have "length (str_path rel) = 181 \<longrightarrow> filter is_rel_len_issue rs = [rel_len_reason 181]"
    by (simp add: REL_PATH_LEN_LIMIT_def)
  moreover have "REL_PATH_LEN_LIMIT = 180"
    by (simp add: REL_PATH_LEN_LIMIT_def)
  ultimately show ?thesis using rs by blast
qed

theorem rel_path_length_boundary_witness:
  "(\<exists>rs. file_health_checks (fs_stat (Some 5)) (music_file [replicate 180 97]) music_root = Inr rs
      \<and> filter is_rel_len_issue rs = [])
   \<and> (\<exists>rs. file_health_checks (fs_stat (Some 5)) (music_file [replicate 181 97]) music_root = Inr rs
      \<and> filter is_rel_len_issue rs = [rel_len_reason 181])"
proof -
  have a: "length (str_path (Path [] [replicate 180 97])) = 180"
    by (simp add: str_path_single)
  have b: "length (str_path (Path [] [replicate 181 97])) = 181"
    by (simp add: str_path_single)
  from rel_path_length_boundary [OF relative_music, of "fs_stat (Some 5)" "[replicate 180 97]"]
       rel_path_length_boundary [OF relative_music, of "fs_stat (Some 5)" "[replicate 181 97]"]
       a b
  show ?thesis by simp
qed

lemma relative_to_rglob:
  assumes "p \<in> set (rglob fs root)"
  shows "\<exists>rel. relative_to p root = Inr rel"
  using assms by (auto simp: rglob_def relative_to_def)

lemma scan_files_step:
  assumes "is_file fs p = Inr True" and "file_health_checks fs p root = Inr rs"
  shows "\<exists>st'. scan_files U fs root (p # ps) st = scan_files U fs root ps st'
           \<and> issues st' = issues st @ map (\<lambda>r. \<lparr>path = p, reason = r\<rparr>) rs"
proof -
  obtain b r where br: "classify_file U p = (b, r)"
    by (cases "classify_file U p")
  let ?st' = "st\<lparr>buckets := (buckets st)(b := buckets st b @ [\<lparr>path = p, reason = r\<rparr>]),
                  issues := issues st @ map (\<lambda>r. \<lparr>path = p, reason = r\<rparr>) rs\<rparr>"
  have "scan_files U fs root (p # ps) st = scan_files U fs root ps ?st'"
    by (simp add: assms br)
  moreover have "issues ?st' = issues st @ map (\<lambda>r. \<lparr>path = p, reason = r\<rparr>) rs"
    by simp
  ultimately show ?thesis by (intro exI conjI)
qed

text \<open>
  C8, as amended: for a file under the root the health checker always returns a list, also
  when \<open>stat\<close> fails. When \<open>stat\<close> fails, the list ends with the finding
  \<open>could not stat file (permissions/corruption)\<close>; when \<open>stat\<close> reports size zero, it ends
  with \<open>zero-byte file\<close>. Once \<open>is_file()\<close> has answered \<open>True\<close>, the scan loop records
  these findings and goes on with the remaining entries. What the scan does when
  \<open>is_dir()\<close> or \<open>is_file()\<close> raise is no part of this statement.
\<close>

theorem stat_failure_is_a_finding:
  assumes "relative_to p root = Inr rel"
  shows "(\<exists>rs. file_health_checks fs p root = Inr rs
       \<and> (stat_size fs p = None \<longrightarrow> rs \<noteq> [] \<and> last rs = stat_reason)
       \<and> (stat_size fs p = Some 0 \<longrightarrow> rs \<noteq> [] \<and> last rs = zero_byte_reason)
       \<and> (is_file fs p = Inr True \<longrightarrow>
            (\<exists>st'. scan_files U fs root (p # ps) st = scan_files U fs root ps st'
               \<and> issues st' = issues st @ map (\<lambda>r. \<lparr>path = p, reason = r\<rparr>) rs)))
     \<and> stat_reason = lit ''could not stat file (permissions/corruption)''
     \<and> zero_byte_reason = lit ''zero-byte file''"
proof -
  let ?rs = "findings_of (name_path_checks p rel) @
          (case stat_size fs p of None \<Rightarrow> [stat_reason]
           | Some n \<Rightarrow> if n = 0 then [zero_byte_reason] else [])"
  have r: "file_health_checks fs p root = Inr ?rs"
    by (rule fhc_split [OF assms])
  have n: "stat_size fs p = None \<longrightarrow> ?rs \<noteq> [] \<and> last ?rs = stat_reason"
    by simp
  have z: "stat_size fs p = Some 0 \<longrightarrow> ?rs \<noteq> [] \<and> last ?rs = zero_byte_reason"
    by simp
  have c: "is_file fs p = Inr True \<longrightarrow>
            (\<exists>st'. scan_files U fs root (p # ps) st = scan_files U fs root ps st'
               \<and> issues st' = issues st @ map (\<lambda>r. \<lparr>path = p, reason = r\<rparr>) ?rs)"
    using scan_files_step [OF _ r] by (rule impI)
  have "\<exists>rs. file_health_checks fs p root = Inr rs
       \<and> (stat_size fs p = None \<longrightarrow> rs \<noteq> [] \<and> last rs = stat_reason)
       \<and> (stat_size fs p = Some 0 \<longrightarrow> rs \<noteq> [] \<and> last rs = zero_byte_reason)
       \<and> (is_file fs p = Inr True \<longrightarrow>
            (\<exists>st'. scan_files U fs root (p # ps) st = scan_files U fs root ps st'
               \<and> issues st' = issues st @ map (\<lambda>r. \<lparr>path = p, reason = r\<rparr>) rs))"
    by (rule exI [of _ ?rs]) (intro conjI, rule r, rule n, rule z, rule c)
  moreover have "stat_reason = lit ''could not stat file (permissions/corruption)''"
    by (simp add: stat_reason_def)
  moreover have "zero_byte_reason = lit ''zero-byte file''"
    by (simp add: zero_byte_reason_def)
  ultimately show ?thesis by (intro conjI)
qed

theorem stat_failure_is_a_finding_witness:
  "(\<exists>rs. file_health_checks (fs_stat None) (music_file [lit ''Track 01.flac'']) music_root = Inr rs
      \<and> last rs = lit ''could not stat file (permissions/corruption)''
      \<and> (\<exists>st'. scan_files U_id (fs_stat None) music_root [music_file [lit ''Track 01.flac'']]
                  \<lparr>buckets = (\<lambda>_. []), issues = [], junk_dirs = []\<rparr> = Inr st'
             \<and> issues st' = map (\<lambda>r. \<lparr>path = music_file [lit ''Track 01.flac''], reason = r\<rparr>) rs))
   \<and> (\<exists>rs. file_health_checks (fs_stat (Some 0)) (music_file [lit ''Track 01.flac'']) music_root = Inr rs
      \<and> last rs = lit ''zero-byte file'')"
proof -
  let ?p = "music_file [lit ''Track 01.flac'']"
  let ?st = "\<lparr>buckets = (\<lambda>_. []), issues = [], junk_dirs = []\<rparr>"
  have n: "stat_size (fs_stat None) ?p = None" and z: "stat_size (fs_stat (Some 0)) ?p = Some 0"
    and f: "is_file (fs_stat None) ?p = Inr True"
    by (simp_all add: fs_stat_def)
  note failing = stat_failure_is_a_finding
         [OF relative_music [of "[lit ''Track 01.flac'']"],
          where fs = "fs_stat None" and U = U_id and ps = "[]" and st = ?st]
  note empty = stat_failure_is_a_finding
         [OF relative_music [of "[lit ''Track 01.flac'']"],
          where fs = "fs_stat (Some 0)" and U = U_id and ps = "[]" and st = ?st]
  note reasons = failing [THEN conjunct2]
  from failing [THEN conjunct1] obtain rs1 where
    all1: "file_health_checks (fs_stat None) ?p music_root = Inr rs1
      \<and> (stat_size (fs_stat None) ?p = None \<longrightarrow> rs1 \<noteq> [] \<and> last rs1 = stat_reason)
      \<and> (stat_size (fs_stat None) ?p = Some 0 \<longrightarrow> rs1 \<noteq> [] \<and> last rs1 = zero_byte_reason)
      \<and> (is_file (fs_stat None) ?p = Inr True \<longrightarrow>
           (\<exists>st'. scan_files U_id (fs_stat None) music_root [?p] ?st
                    = scan_files U_id (fs_stat None) music_root [] st'
                 \<and> issues st' = issues ?st @ map (\<lambda>r. \<lparr>path = ?p, reason = r\<rparr>) rs1))" ..
  note r1 = all1 [THEN conjunct1]
  note l1 = all1 [THEN conjunct2, THEN conjunct1]
  note s1 = all1 [THEN conjunct2, THEN conjunct2, THEN conjunct2, THEN mp, OF f]
  from s1 obtain st' where
    both: "scan_files U_id (fs_stat None) music_root [?p] ?st
          = scan_files U_id (fs_stat None) music_root [] st'
        \<and> issues st' = issues ?st @ map (\<lambda>r. \<lparr>path = ?p, reason = r\<rparr>) rs1" ..
  note e = both [THEN conjunct1]
  note i = both [THEN conjunct2]
  have e': "scan_files U_id (fs_stat None) music_root [?p] ?st = Inr st'"
    by (simp only: e scan_files.simps(1))
  have i': "issues st' = map (\<lambda>r. \<lparr>path = ?p, reason = r\<rparr>) rs1"
    using i by simp
  have l1': "last rs1 = lit ''could not stat file (permissions/corruption)''"
    using l1 [THEN mp, OF n] reasons [THEN conjunct1] by simp
  have one: "\<exists>rs. file_health_checks (fs_stat None) ?p music_root = Inr rs
      \<and> last rs = lit ''could not stat file (permissions/corruption)''
      \<and> (\<exists>st'. scan_files U_id (fs_stat None) music_root [?p] ?st = Inr st'
             \<and> issues st' = map (\<lambda>r. \<lparr>path = ?p, reason = r\<rparr>) rs)"
    by (rule exI [of _ rs1], intro conjI, rule r1, rule l1', rule exI [of _ st'], intro conjI,
        rule e', rule i')
  from empty [THEN conjunct1] obtain rs2 where
    all2: "file_health_checks (fs_stat (Some 0)) ?p music_root = Inr rs2
      \<and> (stat_size (fs_stat (Some 0)) ?p = None \<longrightarrow> rs2 \<noteq> [] \<and> last rs2 = stat_reason)
      \<and> (stat_size (fs_stat (Some 0)) ?p = Some 0 \<longrightarrow> rs2 \<noteq> [] \<and> last rs2 = zero_byte_reason)
      \<and> (is_file (fs_stat (Some 0)) ?p = Inr True \<longrightarrow>
           (\<exists>st'. scan_files U_id (fs_stat (Some 0)) music_root [?p] ?st
                    = scan_files U_id (fs_stat (Some 0)) music_root [] st'
                 \<and> issues st' = issues ?st @ map (\<lambda>r. \<lparr>path = ?p, reason = r\<rparr>) rs2))" ..
  note r2 = all2 [THEN conjunct1]
  note l2 = all2 [THEN conjunct2, THEN conjunct2, THEN conjunct1, THEN mp, OF z]
  have l2': "last rs2 = lit ''zero-byte file''"
    using l2 reasons [THEN conjunct2] by simp
  have two: "\<exists>rs. file_health_checks (fs_stat (Some 0)) ?p music_root = Inr rs
      \<and> last rs = lit ''zero-byte file''"
    by (rule exI [of _ rs2], intro conjI, rule r2, rule l2')
  from one two show ?thesis by (rule conjI)
qed

text \<open>
  C8 as stated fails twice. On the reason: with \<open>stat\<close> failing, no finding of
  \<open>Track 01.flac\<close> reads \<open>could not inspect file\<close>. On the scan: where \<open>stat\<close> is denied for
  the file, \<open>is_dir()\<close> raises in the first loop of \<open>main\<close> and the scan ends with that
  error.
\<close>

theorem stat_failure_reason_counterexample:
  "\<not> (\<exists>rs. file_health_checks (fs_stat None) (music_file [lit ''Track 01.flac'']) music_root = Inr rs
        \<and> lit ''could not inspect file'' \<in> set rs)
   \<and> stat_size fs_denied (music_file [lit ''Track 01.flac'']) = None
   \<and> scan U_id fs_denied music_root = Inl OSError"
proof -
  have "findings_of (documented_checks (fs_stat None) (music_file [lit ''Track 01.flac''])
          (Path [] [lit ''Track 01.flac''])) = [stat_reason]"
    by (simp add: documented_checks_def name_path_checks_def findings_of_def fs_stat_def music_file_def
      parts_def str_path_def name_def has_non_ascii_def BAD_CHARS_PATTERN_search_def bad_char_def
      strip_def isspace_def lit_def DEPTH_LIMIT_def REL_PATH_LEN_LIMIT_def MAX_FILENAME_LEN_def)
  then have "file_health_checks (fs_stat None) (music_file [lit ''Track 01.flac'']) music_root
     = Inr [stat_reason]"
    by (simp add: fhc_documented [OF relative_music])
  moreover have "lit ''could not inspect file'' \<noteq> stat_reason"
    by (simp add: stat_reason_def lit_def)
  ultimately have a: "\<not> (\<exists>rs. file_health_checks (fs_stat None) (music_file [lit ''Track 01.flac''])
        music_root = Inr rs \<and> lit ''could not inspect file'' \<in> set rs)"
    by simp
  have b: "stat_size fs_denied (music_file [lit ''Track 01.flac'']) = None"
    by (simp add: fs_denied_def)
  have c: "scan U_id fs_denied music_root = Inl OSError"
    by (simp add: scan_def rglob_def fs_denied_def)
  from a b c show ?thesis by (intro conjI)
qed

text \<open>
  C9: a returned list has at most 8 findings. Every finding is the text of one of the
  documented checks and none occurs twice, so each check contributes at most one. The
  zero-byte finding and the stat-failure finding never occur together, and the one that
  occurs is the last element.
\<close>

theorem at_most_eight_findings:
  assumes "file_health_checks fs p root = Inr rs"
  shows "length rs \<le> 8
     \<and> (\<exists>rel. relative_to p root = Inr rel
           \<and> set rs \<subseteq> set (map snd (documented_checks fs p rel)))
     \<and> distinct rs
     \<and> \<not> (zero_byte_reason \<in> set rs \<and> stat_reason \<in> set rs)
     \<and> (zero_byte_reason \<in> set rs \<longrightarrow> last rs = zero_byte_reason)
     \<and> (stat_reason \<in> set rs \<longrightarrow> last rs = stat_reason)"
proof -
  from assms obtain rel where rel: "relative_to p root = Inr rel"
    by (rule fhc_Inr)
  let ?name_part = "findings_of (name_path_checks p rel)"
  let ?size_part = "case stat_size fs p of None \<Rightarrow> [stat_reason]
               | Some n \<Rightarrow> if n = 0 then [zero_byte_reason] else []"
  have rs: "rs = ?name_part @ ?size_part"
    using assms fhc_split [OF rel, of fs] by simp
  have rs': "rs = findings_of (documented_checks fs p rel)"
    using assms fhc_documented [OF rel, of fs] by simp
  have "length ?name_part \<le> 7"
    using length_findings [of "name_path_checks p rel"] by (simp add: length_name_path_checks)
  moreover have "length ?size_part \<le> 1"
    by (simp split: option.split)
  ultimately have len: "length rs \<le> 8"
    by (simp add: rs)
  have sub: "set rs \<subseteq> set (map snd (documented_checks fs p rel))"
    unfolding rs' by (rule findings_subset)
  have dist: "distinct rs"
    unfolding rs' by (rule findings_distinct) (simp only: documented_reasons reasons_distinct)
  have z: "zero_byte_reason \<in> set rs \<longleftrightarrow> stat_size fs p = Some 0"
    using zero_stat_ne by (auto simp: rs last_reasons_notin split: option.splits if_splits)
  have s: "stat_reason \<in> set rs \<longleftrightarrow> stat_size fs p = None"
    using zero_stat_ne by (auto simp: rs last_reasons_notin split: option.splits if_splits)
  have excl: "\<not> (zero_byte_reason \<in> set rs \<and> stat_reason \<in> set rs)"
    by (simp add: z s)
  have lz: "zero_byte_reason \<in> set rs \<longrightarrow> last rs = zero_byte_reason"
    unfolding z by (simp add: rs)
  have ls: "stat_reason \<in> set rs \<longrightarrow> last rs = stat_reason"
    unfolding s by (simp add: rs)
  from len rel sub dist excl lz ls show ?thesis by blast
qed

theorem at_most_eight_findings_witness:
  "file_health_checks (fs_stat None) (music_file [lit ''a  b '']) music_root
     = Inr [spaces_reason, double_spaces_reason, stat_reason]
   \<and> length [spaces_reason, double_spaces_reason, stat_reason] \<le> 8
   \<and> distinct [spaces_reason, double_spaces_reason, stat_reason]
   \<and> zero_byte_reason \<notin> set [spaces_reason, double_spaces_reason, stat_reason]
   \<and> last [spaces_reason, double_spaces_reason, stat_reason] = stat_reason"
proof -
  have e: "file_health_checks (fs_stat None) (music_file [lit ''a  b '']) music_root
     = Inr [spaces_reason, double_spaces_reason, stat_reason]"
    by (simp add: fhc_documented [OF relative_music] eval_spaces_example)
  from at_most_eight_findings [OF e] e show ?thesis by simp
qed

section \<open>The deletion plan\<close>

lemma choices_distinct: "distinct [lit ''1'', lit ''2'', lit ''3'', lit ''4'']"
  by (simp add: lit_def)

lemma plan1: "deletion_plan (lit ''1'') bs = map path (bs (lit ''junk''))"
  using choices_distinct
  by (simp add: deletion_plan_def select_deletions_def delete_list_def Let_def)

lemma plan2: "deletion_plan (lit ''2'') bs = map path (bs (lit ''junk'')) @ map path (bs (lit ''maybe''))"
  using choices_distinct
  by (simp add: deletion_plan_def select_deletions_def delete_list_def Let_def)

lemma plan3: "deletion_plan (lit ''3'') bs =
    map path (bs (lit ''junk'')) @ map path (bs (lit ''maybe'')) @ map path (bs (lit ''unknown''))"
  using choices_distinct
  by (simp add: deletion_plan_def select_deletions_def delete_list_def Let_def)

lemma plan4: "deletion_plan (lit ''4'') bs = []"
  by (simp add: deletion_plan_def select_deletions_def)

lemma plan_other: "c \<notin> {lit ''1'', lit ''2'', lit ''3'', lit ''4''} \<Longrightarrow> deletion_plan c bs = []"
  by (simp add: deletion_plan_def select_deletions_def)

lemma classify_examples:
  "classify_file U_id (music_file [lit ''a.flac'']) = (lit ''allowed'', lit ''audio file'')"
  "classify_file U_id (music_file [lit ''x.m3u''])
     = (lit ''junk'', lit ''junk sidecar/playlist/db/log (.m3u)'')"
  by (simp_all add: classify_file_def music_file_def name_def suffix_def stem_def
      APPLEDOUBLE_PREFIX_def lit_def lower_def lower_cp_def JUNK_FILENAMES_def AUDIO_EXTS_def
      IMAGE_EXTS_def JUNK_EXTS_def Let_def)

lemma health_examples:
  "file_health_checks fs_two (music_file [lit ''a.flac'']) music_root = Inr [zero_byte_reason]"
  "file_health_checks fs_two (music_file [lit ''x.m3u'']) music_root = Inr [zero_byte_reason]"
  unfolding fhc_split [OF relative_music]
  by (simp_all add: name_path_checks_def findings_of_def fs_two_def
      music_file_def parts_def str_path_def name_def has_non_ascii_def BAD_CHARS_PATTERN_search_def
      bad_char_def strip_def isspace_def lit_def DEPTH_LIMIT_def REL_PATH_LEN_LIMIT_def
      MAX_FILENAME_LEN_def)

lemma rglob_two:
  "rglob fs_two music_root = [music_file [lit ''a.flac''], music_file [lit ''x.m3u'']]"
  by (simp add: rglob_def fs_two_def music_root_def music_file_def)

lemma is_file_two: "is_file fs_two p = Inr True"
  by (simp add: fs_two_def)

lemma is_dir_two: "is_dir fs_two p = Inr False"
  by (simp add: fs_two_def)

lemma scan_two:
  "\<exists>st. scan U_id fs_two music_root = Inr st
     \<and> map path (buckets st (lit ''allowed'')) = [music_file [lit ''a.flac'']]
     \<and> map path (buckets st (lit ''junk'')) = [music_file [lit ''x.m3u'']]
     \<and> buckets st (lit ''maybe'') = [] \<and> buckets st (lit ''unknown'') = []
     \<and> map path (issues st) = [music_file [lit ''a.flac''], music_file [lit ''x.m3u'']]"
  by (simp add: scan_def rglob_two is_file_two is_dir_two classify_examples health_examples
      bucket_names_ne)

lemma plan_subset:
  "set (deletion_plan c bs) \<subseteq>
     path ` (set (bs (lit ''junk'')) \<union> set (bs (lit ''maybe'')) \<union> set (bs (lit ''unknown'')))"
proof (cases "c \<in> {lit ''1'', lit ''2'', lit ''3'', lit ''4''}")
  case True
  then show ?thesis by (auto simp: plan1 plan2 plan3 plan4)
next
  case False
  then show ?thesis by (simp add: plan_other)
qed

lemma scan_files_classified:
  assumes "scan_files U fs root ps st = Inr st'" and "classified U (buckets st)"
  shows "classified U (buckets st')"
  using assms
proof (induction ps arbitrary: st)
  case Nil
  then show ?case by simp
next
  case (Cons p ps)
  from Cons.prems(1) obtain regular where reg: "is_file fs p = Inr regular"
    by (cases "is_file fs p") simp_all
  show ?case
  proof (cases regular)
    case False
    with Cons reg show ?thesis by simp
  next
    case True
    obtain b r where br: "classify_file U p = (b, r)" by (cases "classify_file U p")
    let ?st1 = "st\<lparr>buckets := (buckets st)(b := buckets st b @ [\<lparr>path = p, reason = r\<rparr>])\<rparr>"
    from Cons.prems(1) reg True br obtain rs where
      rs: "file_health_checks fs p root = Inr rs"
      and rest: "scan_files U fs root ps
                  (?st1\<lparr>issues := issues ?st1 @ map (\<lambda>r. \<lparr>path = p, reason = r\<rparr>) rs\<rparr>) = Inr st'"
      by (auto simp: Let_def split: sum.splits)
    have "classified U (buckets ?st1)"
      using Cons.prems(2) br by (auto simp: classified_def)
    then have "classified U (buckets (?st1\<lparr>issues := issues ?st1 @ map (\<lambda>r. \<lparr>path = p, reason = r\<rparr>) rs\<rparr>))"
      by simp
    from Cons.IH [OF rest this] show ?thesis .
  qed
qed

lemma scan_classified:
  assumes "scan U fs root = Inr st"
  shows "classified U (buckets st)"
proof -
  from assms obtain ds where
    "scan_files U fs root (rglob fs root)
       \<lparr>buckets = (\<lambda>_. []), issues = [], junk_dirs = ds\<rparr> = Inr st"
    by (auto simp: scan_def split: sum.splits)
  then show ?thesis
    by (rule scan_files_classified) (simp add: classified_def)
qed

text \<open>
  C1: the menu answers \<open>1\<close>, \<open>2\<close>, \<open>3\<close> and \<open>4\<close> are the levels junk only, junk and maybe,
  junk, maybe and unknown, and report only. For every content of the buckets the paths
  planned at \<open>1\<close> are among those planned at \<open>2\<close>, those are among the ones planned at
  \<open>3\<close>, and at \<open>4\<close> nothing is planned.
\<close>

theorem plan_monotone:
  "set (deletion_plan (lit ''1'') bs) \<subseteq> set (deletion_plan (lit ''2'') bs)
   \<and> set (deletion_plan (lit ''2'') bs) \<subseteq> set (deletion_plan (lit ''3'') bs)
   \<and> deletion_plan (lit ''4'') bs = []"
proof (intro conjI)
  show "set (deletion_plan (lit ''1'') bs) \<subseteq> set (deletion_plan (lit ''2'') bs)"
    by (simp add: plan1 plan2)
  show "set (deletion_plan (lit ''2'') bs) \<subseteq> set (deletion_plan (lit ''3'') bs)"
    by (auto simp: plan2 plan3)
  show "deletion_plan (lit ''4'') bs = []"
    by (rule plan4)
qed


theorem plan_monotone_witness:
  "\<exists>st. scan U_id fs_two music_root = Inr st
     \<and> deletion_plan (lit ''1'') (buckets st) = [music_file [lit ''x.m3u'']]
     \<and> set (deletion_plan (lit ''1'') (buckets st)) \<subseteq> set (deletion_plan (lit ''2'') (buckets st))
     \<and> set (deletion_plan (lit ''2'') (buckets st)) \<subseteq> set (deletion_plan (lit ''3'') (buckets st))
     \<and> deletion_plan (lit ''4'') (buckets st) = []"
proof -
  from scan_two obtain st where st: "scan U_id fs_two music_root = Inr st"
    and j: "map path (buckets st (lit ''junk'')) = [music_file [lit ''x.m3u'']]"
    by (elim exE conjE)
  have p: "deletion_plan (lit ''1'') (buckets st) = [music_file [lit ''x.m3u'']]"
    by (simp add: plan1 j)
  note mono = plan_monotone [of "buckets st"]
  note a = mono [THEN conjunct1]
  note b = mono [THEN conjunct2, THEN conjunct1]
  note c = mono [THEN conjunct2, THEN conjunct2]
  show ?thesis
    by (rule exI [of _ st]) (intro conjI, rule st, rule p, rule a, rule b, rule c)
qed

text \<open>
  C2: at every level the planned paths come from the \<open>junk\<close>, \<open>maybe\<close> and \<open>unknown\<close>
  buckets only. After a scan, no path of the \<open>allowed\<close> bucket is planned, every planned
  path classifies to \<open>junk\<close>, \<open>maybe\<close> or \<open>unknown\<close>, and a path that shows up among the
  health issues but in none of these three buckets is never planned.
\<close>

theorem plan_driven_by_category:
  assumes "scan U fs root = Inr st"
  shows "set (deletion_plan c bs) \<subseteq>
           path ` (set (bs (lit ''junk'')) \<union> set (bs (lit ''maybe'')) \<union> set (bs (lit ''unknown'')))
     \<and> path ` set (buckets st (lit ''allowed'')) \<inter> set (deletion_plan c (buckets st)) = {}
     \<and> (\<forall>p. p \<in> set (deletion_plan c (buckets st)) \<longrightarrow>
            fst (classify_file U p) \<in> {lit ''junk'', lit ''maybe'', lit ''unknown''})
     \<and> (\<forall>p. p \<in> path ` set (issues st)
              \<and> p \<notin> path ` (set (buckets st (lit ''junk'')) \<union> set (buckets st (lit ''maybe''))
                             \<union> set (buckets st (lit ''unknown'')))
            \<longrightarrow> p \<notin> set (deletion_plan c (buckets st)))"
proof -
  have cl: "classified U (buckets st)" using assms by (rule scan_classified)
  have ne: "lit ''allowed'' \<notin> {lit ''junk'', lit ''maybe'', lit ''unknown''}"
    by (simp add: bucket_names_ne)
  have sub: "set (deletion_plan c (buckets st)) \<subseteq>
           path ` (set (buckets st (lit ''junk'')) \<union> set (buckets st (lit ''maybe''))
                   \<union> set (buckets st (lit ''unknown'')))"
    by (rule plan_subset)
  have cat: "\<forall>p. p \<in> set (deletion_plan c (buckets st)) \<longrightarrow>
            fst (classify_file U p) \<in> {lit ''junk'', lit ''maybe'', lit ''unknown''}"
  proof (intro allI impI)
    fix p assume "p \<in> set (deletion_plan c (buckets st))"
    with sub obtain f where "p = path f"
      and "f \<in> set (buckets st (lit ''junk'')) \<or> f \<in> set (buckets st (lit ''maybe''))
           \<or> f \<in> set (buckets st (lit ''unknown''))"
      by auto
    with cl show "fst (classify_file U p) \<in> {lit ''junk'', lit ''maybe'', lit ''unknown''}"
      by (auto simp: classified_def)
  qed
  have allowed: "path ` set (buckets st (lit ''allowed'')) \<inter> set (deletion_plan c (buckets st)) = {}"
  proof -
    { fix f assume a: "f \<in> set (buckets st (lit ''allowed''))"
        and d: "path f \<in> set (deletion_plan c (buckets st))"
      from cl a have "fst (classify_file U (path f)) = lit ''allowed''"
        by (simp add: classified_def)
      moreover from cat d
      have "fst (classify_file U (path f)) \<in> {lit ''junk'', lit ''maybe'', lit ''unknown''}"
        by simp
      ultimately have False using ne by simp }
    then show ?thesis by auto
  qed
  from sub have health: "\<forall>p. p \<in> path ` set (issues st)
              \<and> p \<notin> path ` (set (buckets st (lit ''junk'')) \<union> set (buckets st (lit ''maybe''))
                             \<union> set (buckets st (lit ''unknown'')))
            \<longrightarrow> p \<notin> set (deletion_plan c (buckets st))"
    by blast
  show ?thesis by (intro conjI) (rule plan_subset, rule allowed, rule cat, rule health)
qed

theorem plan_driven_by_category_witness:
  "\<exists>st. scan U_id fs_two music_root = Inr st
     \<and> deletion_plan (lit ''3'') (buckets st) = [music_file [lit ''x.m3u'']]
     \<and> music_file [lit ''a.flac''] \<in> set (map path (issues st))
     \<and> path ` set (buckets st (lit ''allowed'')) \<inter> set (deletion_plan (lit ''3'') (buckets st)) = {}"
proof -
  from scan_two obtain st where st: "scan U_id fs_two music_root = Inr st"
    and j: "map path (buckets st (lit ''junk'')) = [music_file [lit ''x.m3u'']]"
    and m: "buckets st (lit ''maybe'') = []" and u: "buckets st (lit ''unknown'') = []"
    and i: "map path (issues st) = [music_file [lit ''a.flac''], music_file [lit ''x.m3u'']]"
    by (elim exE conjE)
  have p: "deletion_plan (lit ''3'') (buckets st) = [music_file [lit ''x.m3u'']]"
    by (simp add: plan3 j m u)
  have h: "music_file [lit ''a.flac''] \<in> set (map path (issues st))"
    by (simp only: i) simp
  note a = plan_driven_by_category [OF st, of "lit ''3''" "buckets st", THEN conjunct2, THEN conjunct1]
  show ?thesis
    by (rule exI [of _ st]) (intro conjI, rule st, rule p, rule h, rule a)
qed


end
